theory Spec2Isabelle
  imports Complex_Main
begin

section \<open>Employee productivity tracker: image normaliser and job orchestrator\<close>

text \<open>
  A shallow embedding of \<^verbatim>\<open>streamlit_code.py\<close>. The Python functions keep their names.
  Library calls whose code is not part of the repository (Pillow, \<^verbatim>\<open>json\<close>,
  \<^verbatim>\<open>requests\<close>, \<^verbatim>\<open>boto3\<close>) are parameters of the model. Everything a function does
  besides returning a value is written to an explicit world: a store of image objects and
  a trace of the calls it makes.
\<close>

subsection \<open>Strings and numbers\<close>

text \<open>
  A Python \<^verbatim>\<open>str\<close> is modelled by the list of its UTF-8 bytes, which is what
  \<^verbatim>\<open>len(s.encode('utf-8'))\<close> counts; a base64 string is ASCII, one byte per character.
  \<^verbatim>\<open>bytes\<close> values are byte lists as well.
\<close>

type_synonym bytes = "char list"

definition digit_char :: "nat \<Rightarrow> char" where
  "digit_char d = ''0123456789'' ! d"

text \<open>\<^verbatim>\<open>str(n)\<close> / \<^verbatim>\<open>f"{n}"\<close> for a non-negative integer: its decimal digits.\<close>

fun str_nat :: "nat \<Rightarrow> string" where
  "str_nat n = (if n < 10 then [digit_char n] else str_nat (n div 10) @ [digit_char (n mod 10)])"

declare str_nat.simps [simp del]

subsection \<open>JSON values\<close>

text \<open>
  What \<^verbatim>\<open>json.loads\<close> returns. \<open>JObj kv\<close> is a Python \<^verbatim>\<open>dict\<close>, read with
  \<open>map_of kv\<close>; \<open>JNull\<close> is \<^verbatim>\<open>None\<close>. Floats are the finite ones.
\<close>

datatype json =
    JNull
  | JBool bool
  | JInt int
  | JFloat real
  | JStr string
  | JArr "json list"
  | JObj "(string \<times> json) list"

text \<open>Python truthiness, as \<^verbatim>\<open>if execution_arn:\<close> tests it.\<close>

fun truthy :: "json \<Rightarrow> bool" where
  "truthy JNull = False"
| "truthy (JBool b) = b"
| "truthy (JInt i) = (i \<noteq> 0)"
| "truthy (JFloat r) = (r \<noteq> 0)"
| "truthy (JStr s) = (s \<noteq> [])"
| "truthy (JArr xs) = (xs \<noteq> [])"
| "truthy (JObj kv) = (kv \<noteq> [])"

fun type_name :: "json \<Rightarrow> string" where
  "type_name JNull = ''NoneType''"
| "type_name (JBool b) = ''bool''"
| "type_name (JInt i) = ''int''"
| "type_name (JFloat r) = ''float''"
| "type_name (JStr s) = ''str''"
| "type_name (JArr xs) = ''list''"
| "type_name (JObj kv) = ''dict''"

text \<open>
  \<^verbatim>\<open>x.get(key, default)\<close>. Only a \<^verbatim>\<open>dict\<close> has a \<^verbatim>\<open>get\<close>; on any other value the
  attribute access raises \<^verbatim>\<open>AttributeError\<close>, here \<open>Inl\<close> with the exception's text.
\<close>

definition py_get :: "json \<Rightarrow> string \<Rightarrow> json \<Rightarrow> string + json" where
  "py_get x key dflt =
     (case x of
        JObj kv \<Rightarrow> Inr (case map_of kv key of None \<Rightarrow> dflt | Some v \<Rightarrow> v)
      | _ \<Rightarrow> Inl ([CHR 0x27] @ type_name x @ [CHR 0x27] @ '' object has no attribute '' @
                 [CHR 0x27] @ ''get'' @ [CHR 0x27]))"

subsection \<open>The world: image store and trace\<close>

text \<open>
  A Pillow image is a mutable object (\<^verbatim>\<open>thumbnail\<close> changes it in place), so images
  live in a store: the reference \<open>r\<close> names the object \<open>heap w ! r\<close>, and a new object is
  appended. The trace lists, in order, the library calls made and the messages shown.
\<close>

type_synonym iref = nat

datatype resample = LANCZOS

datatype event =
    Opened iref
  | Copied iref iref
  | Converted iref string iref
  | Cropped iref iref
  | Thumbnailed iref "nat \<times> nat"
  | Saved iref
  | StInfo string
  | StWarning string
  | StError string
  | Posted json
  | Described json
  | Slept nat

record 'v world =
  heap :: "'v list"
  trace :: "event list"

definition emit :: "event \<Rightarrow> 'v world \<Rightarrow> 'v world" where
  "emit e w = w\<lparr>trace := trace w @ [e]\<rparr>"

text \<open>
  A statement of the program either returns a value or raises an exception; both leave a
  world behind. \<open>Inl e\<close> is an exception whose \<^verbatim>\<open>str(e)\<close> is \<open>e\<close>.
\<close>

type_synonym ('a, 's) stmt = "'s \<Rightarrow> (string + 'a) \<times> 's"

definition ret :: "'a \<Rightarrow> ('a, 's) stmt" where
  "ret a s = (Inr a, s)"

definition andthen :: "('a, 's) stmt \<Rightarrow> ('a \<Rightarrow> ('b, 's) stmt) \<Rightarrow> ('b, 's) stmt" where
  "andthen m f s = (case m s of (Inl e, s') \<Rightarrow> (Inl e, s') | (Inr a, s') \<Rightarrow> f a s')"

subsection \<open>Pillow\<close>

text \<open>
  The image library, over the type \<open>'v\<close> of image contents. Every call that can raise
  returns a sum. \<open>pil_thumbnail\<close> gives the contents the object has after
  \<^verbatim>\<open>img.thumbnail(size, resample)\<close>; \<open>pil_save\<close> gives the bytes written by
  \<^verbatim>\<open>img.save(buffer, format=..., optimize=..., quality=...)\<close>.
\<close>

record 'v pil =
  pil_open :: "bytes \<Rightarrow> string + 'v"
  pil_format :: "'v \<Rightarrow> string option"
  pil_mode :: "'v \<Rightarrow> string"
  pil_convert :: "'v \<Rightarrow> string \<Rightarrow> string + 'v"
  pil_getbbox :: "'v \<Rightarrow> (int \<times> int \<times> int \<times> int) option"
  pil_crop :: "'v \<Rightarrow> int \<times> int \<times> int \<times> int \<Rightarrow> string + 'v"
  pil_thumbnail :: "'v \<Rightarrow> nat \<times> nat \<Rightarrow> resample option \<Rightarrow> string + 'v"
  pil_save :: "'v \<Rightarrow> string \<Rightarrow> bool \<Rightarrow> nat option \<Rightarrow> string + bytes"

text \<open>\<^verbatim>\<open>Image.open(file)\<close>: a new image object.\<close>

definition img_open :: "'v pil \<Rightarrow> bytes \<Rightarrow> (iref, 'v world) stmt" where
  "img_open P file w =
     (case pil_open P file of
        Inl e \<Rightarrow> (Inl e, w)
      | Inr v \<Rightarrow> (Inr (length (heap w)),
                  emit (Opened (length (heap w))) (w\<lparr>heap := heap w @ [v]\<rparr>)))"

text \<open>\<^verbatim>\<open>img.copy()\<close>: a new object with the contents of \<open>img\<close>.\<close>

definition img_copy :: "iref \<Rightarrow> (iref, 'v world) stmt" where
  "img_copy img w =
     (Inr (length (heap w)),
      emit (Copied img (length (heap w))) (w\<lparr>heap := heap w @ [heap w ! img]\<rparr>))"

text \<open>\<^verbatim>\<open>img.convert(mode)\<close>: a new object.\<close>

definition img_convert :: "'v pil \<Rightarrow> iref \<Rightarrow> string \<Rightarrow> (iref, 'v world) stmt" where
  "img_convert P img mode w =
     (case pil_convert P (heap w ! img) mode of
        Inl e \<Rightarrow> (Inl e, w)
      | Inr v \<Rightarrow> (Inr (length (heap w)),
                  emit (Converted img mode (length (heap w))) (w\<lparr>heap := heap w @ [v]\<rparr>)))"

text \<open>\<^verbatim>\<open>img.crop(bbox)\<close>: a new object.\<close>

definition img_crop :: "'v pil \<Rightarrow> iref \<Rightarrow> int \<times> int \<times> int \<times> int \<Rightarrow> (iref, 'v world) stmt" where
  "img_crop P img bbox w =
     (case pil_crop P (heap w ! img) bbox of
        Inl e \<Rightarrow> (Inl e, w)
      | Inr v \<Rightarrow> (Inr (length (heap w)),
                  emit (Cropped img (length (heap w))) (w\<lparr>heap := heap w @ [v]\<rparr>)))"

text \<open>\<^verbatim>\<open>img.thumbnail(size, resample)\<close>: changes the object \<open>img\<close> itself.\<close>

definition img_thumbnail ::
  "'v pil \<Rightarrow> iref \<Rightarrow> nat \<times> nat \<Rightarrow> resample option \<Rightarrow> (unit, 'v world) stmt" where
  "img_thumbnail P img sz resample w =
     (case pil_thumbnail P (heap w ! img) sz resample of
        Inl e \<Rightarrow> (Inl e, w)
      | Inr v \<Rightarrow> (Inr (), emit (Thumbnailed img sz) (w\<lparr>heap := (heap w)[img := v]\<rparr>)))"

text \<open>
  \<^verbatim>\<open>buffer = BytesIO(); img.save(buffer, ...); buffer.seek(0)\<close>: the buffer's contents.
\<close>

definition img_save ::
  "'v pil \<Rightarrow> iref \<Rightarrow> string \<Rightarrow> bool \<Rightarrow> nat option \<Rightarrow> (bytes, 'v world) stmt" where
  "img_save P img fmt optimize quality w =
     (case pil_save P (heap w ! img) fmt optimize quality of
        Inl e \<Rightarrow> (Inl e, w)
      | Inr data \<Rightarrow> (Inr data, emit (Saved img) w))"

subsection \<open>Image normaliser\<close>

text \<open>\<^verbatim>\<open>auto_crop(img)\<close>, lines 30-35.\<close>

definition auto_crop :: "'v pil \<Rightarrow> iref \<Rightarrow> (iref, 'v world) stmt" where
  "auto_crop P img w =
     (case pil_getbbox P (heap w ! img) of
        Some bbox \<Rightarrow> img_crop P img bbox w
      | None \<Rightarrow> ret img w)"

text \<open>
  \<^verbatim>\<open>aggressive_compress(img)\<close>, lines 37-47. The \<^verbatim>\<open>for\<close> loop over the three sizes is
  the recursion over the list; the result is the buffer, or \<open>None\<close>.
\<close>

fun aggressive_loop :: "'v pil \<Rightarrow> iref \<Rightarrow> (nat \<times> nat) list \<Rightarrow> (bytes option, 'v world) stmt" where
  "aggressive_loop P img [] w = ret None w"
| "aggressive_loop P img (sz # sizes) w =
     andthen (img_copy img) (\<lambda>img_copy.
     andthen (img_thumbnail P img_copy sz None) (\<lambda>_.
     andthen (img_save P img_copy ''PNG'' True None) (\<lambda>buffer.
       if length buffer \<le> 250000 then ret (Some buffer)
       else aggressive_loop P img sizes))) w"

definition aggressive_compress :: "'v pil \<Rightarrow> iref \<Rightarrow> (bytes option, 'v world) stmt" where
  "aggressive_compress P img = aggressive_loop P img [(400, 400), (300, 300), (200, 200)]"

text \<open>
  \<^verbatim>\<open>compress_image(uploaded_file)\<close>, lines 57-98, in three parts: lines 68-80
  (\<open>resize_to_500\<close>), lines 84-93, the body of \<^verbatim>\<open>if final_size > 250000\<close>
  (\<open>further_compression\<close>), and the \<^verbatim>\<open>try\<close> block that holds them (\<open>compress_body\<close>).
\<close>

definition resize_to_500 :: "'v pil \<Rightarrow> iref \<Rightarrow> (iref \<times> bytes, 'v world) stmt" where
  "resize_to_500 P img0 =
     andthen (\<lambda>w. if pil_mode P (heap w ! img0) \<notin> set [''RGBA'', ''RGB'']
                  then img_convert P img0 ''RGB'' w else ret img0 w) (\<lambda>img1.
     andthen (auto_crop P img1) (\<lambda>img.
     andthen (img_thumbnail P img (500, 500) (Some LANCZOS)) (\<lambda>_.
     andthen (img_save P img ''PNG'' True (Some 85)) (\<lambda>buffer.
       ret (img, buffer)))))"

definition further_compression :: "'v pil \<Rightarrow> iref \<Rightarrow> (bytes, 'v world) stmt" where
  "further_compression P img =
     andthen (\<lambda>w. ret () (emit (StWarning ''Image is large, attempting further compression...'') w)) (\<lambda>_.
     andthen (aggressive_compress P img) (\<lambda>compressed_buffer.
       case compressed_buffer of
         Some b \<Rightarrow> ret b
       | None \<Rightarrow>
           andthen (img_convert P img ''L'') (\<lambda>img_gray.
           img_save P img_gray ''PNG'' True (Some 70))))"

definition compress_body :: "'v pil \<Rightarrow> bytes \<Rightarrow> (bytes, 'v world) stmt" where
  "compress_body P uploaded_file =
     andthen (img_open P uploaded_file) (\<lambda>img w.
       let original_size = length uploaded_file in
       if original_size \<le> 250000 \<and> pil_format P (heap w ! img) = Some ''PNG''
       then ret uploaded_file w
       else
         andthen (resize_to_500 P img) (\<lambda>(img, buffer).
           let final_size = length buffer in
           if final_size > 250000 then further_compression P img
           else ret buffer) w)"

text \<open>The \<^verbatim>\<open>except Exception\<close> handler: an error message and \<^verbatim>\<open>None\<close>.\<close>

definition compress_image :: "'v pil \<Rightarrow> bytes \<Rightarrow> 'v world \<Rightarrow> bytes option \<times> 'v world" where
  "compress_image P uploaded_file w0 =
     (case compress_body P uploaded_file w0 of
        (Inr buffer, w) \<Rightarrow> (Some buffer, w)
      | (Inl e, w) \<Rightarrow> (None, emit (StError (''Error compressing image: '' @ e)) w))"

subsection \<open>Payload validator\<close>

text \<open>
  \<^verbatim>\<open>validate_input(image_base64)\<close>, lines 110-119. The argument is \<open>None\<close> for
  Python's \<^verbatim>\<open>None\<close>; \<^verbatim>\<open>not image_base64\<close> holds for \<^verbatim>\<open>None\<close> and for the empty string.
  The result is the pair \<^verbatim>\<open>(is_valid, error_message)\<close>.
\<close>

definition validate_input :: "string option \<Rightarrow> bool \<times> string" where
  "validate_input image_base64 =
     (case image_base64 of
        None \<Rightarrow> (False, ''No image data provided'')
      | Some s \<Rightarrow>
          if s = [] then (False, ''No image data provided'')
          else
            let size_in_bytes = length s in
            if size_in_bytes > 262000 then
              (False, ''Image too large ('' @ str_nat size_in_bytes @
                      '' bytes). Maximum allowed is 262144 bytes.'')
            else (True, ''''))"

subsection \<open>Job orchestrator\<close>

text \<open>
  The libraries and services the orchestrator talks to. \<open>json_loads\<close> returns \<open>Inl\<close> with
  the text of the \<^verbatim>\<open>JSONDecodeError\<close> when the string does not parse. \<open>describe_execution\<close>
  answers the status query number \<open>i\<close> (counted from 0) for a job handle: either the call
  raises, or it returns a response dictionary of strings.
\<close>

datatype reply = Raises string | Response "string \<rightharpoonup> string"

datatype http_reply = PostRaises string | HttpResponse nat string

record services =
  json_loads :: "string \<Rightarrow> string + json"
  json_dumps :: "json \<Rightarrow> string"
  requests_post :: "json \<Rightarrow> http_reply"
  boto3_client :: "string option"
  describe_execution :: "json \<Rightarrow> nat \<Rightarrow> reply"

text \<open>
  The dictionary \<^verbatim>\<open>poll_execution_status\<close> returns: the key \<^verbatim>\<open>status\<close> is always
  there, \<^verbatim>\<open>output\<close> and \<^verbatim>\<open>error\<close> are there when the field is not \<open>None\<close>.
\<close>

record poll_dict =
  pd_status :: string
  pd_output :: "json option"
  pd_error :: "string option"

type_synonym log = "event list"

text \<open>
  The \<^verbatim>\<open>except Exception as e\<close> handler of the polling loop, lines 157-162.
\<close>

definition poll_failed :: "string \<Rightarrow> log \<Rightarrow> poll_dict \<times> log" where
  "poll_failed e tr =
     (\<lparr>pd_status = ''ERROR'', pd_output = None, pd_error = Some e\<rparr>,
      tr @ [StError (''Error polling Step Functions: '' @ e)])"

text \<open>
  The loop of \<^verbatim>\<open>poll_execution_status\<close>, lines 124-167: \<open>i\<close> is the number of status
  queries made so far, the fourth argument the number of iterations left. A status other
  than the four terminal ones means the job is still running.
\<close>

fun poll_loop :: "services \<Rightarrow> json \<Rightarrow> nat \<Rightarrow> nat \<Rightarrow> nat \<Rightarrow> log \<Rightarrow> poll_dict \<times> log" where
  "poll_loop S execution_arn delay i 0 tr =
     (\<lparr>pd_status = ''TIMEOUT'', pd_output = None,
       pd_error = Some ''Maximum polling attempts reached''\<rparr>, tr)"
| "poll_loop S execution_arn delay i (Suc n) tr =
     (let tr1 = tr @ [Described execution_arn] in
      case describe_execution S execution_arn i of
        Raises e \<Rightarrow> poll_failed e tr1
      | Response response \<Rightarrow>
          (case response ''status'' of
             None \<Rightarrow> poll_failed ([CHR 0x27] @ ''status'' @ [CHR 0x27]) tr1
           | Some status \<Rightarrow>
               if status = ''SUCCEEDED'' then
                 (let output = (case response ''output'' of None \<Rightarrow> ''{}'' | Some out \<Rightarrow> out) in
                  case json_loads S output of
                    Inr parsed_output \<Rightarrow>
                      (\<lparr>pd_status = status, pd_output = Some parsed_output, pd_error = None\<rparr>, tr1)
                  | Inl e \<Rightarrow>
                      (\<lparr>pd_status = ''ERROR'', pd_output = None,
                        pd_error = Some ''Invalid JSON output''\<rparr>,
                       tr1 @ [StError (''Error parsing Step Functions output: '' @ e)]))
               else if status \<in> set [''FAILED'', ''TIMED_OUT'', ''ABORTED''] then
                 (let error_info =
                        (case response ''error'' of None \<Rightarrow> ''Unknown error'' | Some err \<Rightarrow> err) in
                  (\<lparr>pd_status = status, pd_output = None, pd_error = Some error_info\<rparr>,
                   tr1 @ [StError (''Step Functions execution failed: '' @ error_info)]))
               else poll_loop S execution_arn delay (Suc i) n (tr1 @ [Slept delay])))"

text \<open>
  \<^verbatim>\<open>poll_execution_status(execution_arn, max_attempts=30, delay=2)\<close>. Creating the client
  is outside the \<^verbatim>\<open>try\<close>, so an exception there leaves the function.
\<close>

definition poll_execution_status :: "services \<Rightarrow> json \<Rightarrow> nat \<Rightarrow> nat \<Rightarrow> (poll_dict, log) stmt" where
  "poll_execution_status S execution_arn max_attempts delay tr =
     (case boto3_client S of
        Some e \<Rightarrow> (Inl e, tr)
      | None \<Rightarrow> (case poll_loop S execution_arn delay 0 max_attempts tr of (d, tr') \<Rightarrow> (Inr d, tr')))"

text \<open>
  \<^verbatim>\<open>trigger_analysis(image_base64)\<close>, lines 239-294. \<open>trigger_body\<close> is the \<^verbatim>\<open>try\<close> block;
  its result is the dictionary of the three sub-documents, or \<open>None\<close>.
\<close>

definition say :: "event \<Rightarrow> (unit, log) stmt" where
  "say e tr = (Inr (), tr @ [e])"

definition lift :: "string + 'a \<Rightarrow> ('a, log) stmt" where
  "lift x tr = (x, tr)"

definition post :: "services \<Rightarrow> json \<Rightarrow> (nat \<times> string, log) stmt" where
  "post S payload tr =
     (case requests_post S payload of
        PostRaises e \<Rightarrow> (Inl e, tr @ [Posted payload])
      | HttpResponse status_code text \<Rightarrow> (Inr (status_code, text), tr @ [Posted payload]))"

definition str_or_none :: "string option \<Rightarrow> json" where
  "str_or_none x = (case x of None \<Rightarrow> JNull | Some s \<Rightarrow> JStr s)"

text \<open>The \<^verbatim>\<open>payload\<close> dictionary of lines 247-251.\<close>

definition submission_payload :: "services \<Rightarrow> string option \<Rightarrow> json" where
  "submission_payload S image_base64 =
     JObj [(''input'', JStr (json_dumps S (JObj [(''image_data'', str_or_none image_base64)])))]"

definition trigger_body :: "services \<Rightarrow> string option \<Rightarrow> ((string \<rightharpoonup> json) option, log) stmt" where
  "trigger_body S image_base64 =
     (let payload = submission_payload S image_base64 in
      andthen (post S payload) (\<lambda>(status_code, text).
        if status_code = 200 then
          andthen (lift (json_loads S text)) (\<lambda>result.
          andthen (lift (py_get result ''executionArn'' JNull)) (\<lambda>execution_arn.
            if truthy execution_arn then
              andthen (say (StInfo ''Analysis started...'')) (\<lambda>_.
              andthen (poll_execution_status S execution_arn 30 2) (\<lambda>status.
                if pd_status status = ''SUCCEEDED'' then
                  (let output = (case pd_output status of None \<Rightarrow> JObj [] | Some out \<Rightarrow> out) in
                   andthen (lift (py_get output ''visual_analysis'' (JObj []))) (\<lambda>visual_analysis.
                   andthen (lift (py_get output ''activity_pattern'' (JObj []))) (\<lambda>activity_pattern.
                   andthen (lift (py_get output ''productivity_assessment'' (JObj []))) (\<lambda>productivity_assessment.
                     ret (Some [''visual_analysis'' \<mapsto> visual_analysis,
                                ''activity_pattern'' \<mapsto> activity_pattern,
                                ''productivity_assessment'' \<mapsto> productivity_assessment])))))
                else
                  andthen (say (StError (''Analysis failed: '' @
                                  (case pd_error status of None \<Rightarrow> ''None'' | Some e \<Rightarrow> e)))) (\<lambda>_.
                  ret None)))
            else
              andthen (say (StError ''No execution ARN received'')) (\<lambda>_. ret None)))
        else
          andthen (say (StError (''API Error: '' @ str_nat status_code))) (\<lambda>_.
          andthen (say (StError (''Response: '' @ text))) (\<lambda>_.
          ret None))))"

definition trigger_analysis :: "services \<Rightarrow> string option \<Rightarrow> log \<Rightarrow> (string \<rightharpoonup> json) option \<times> log" where
  "trigger_analysis S image_base64 tr =
     (case validate_input image_base64 of
        (False, error_message) \<Rightarrow> (None, tr @ [StError error_message])
      | (True, _) \<Rightarrow>
          (case trigger_body S image_base64 tr of
             (Inr result, tr') \<Rightarrow> (result, tr')
           | (Inl e, tr') \<Rightarrow> (None, tr' @ [StError (''Error in analysis: '' @ e)])))"

text \<open>The number of status queries and of delays in a trace.\<close>

fun is_query :: "event \<Rightarrow> bool" where
  "is_query (Described a) = True"
| "is_query _ = False"

fun is_delay :: "event \<Rightarrow> bool" where
  "is_delay (Slept d) = True"
| "is_delay _ = False"

definition queries :: "log \<Rightarrow> nat" where
  "queries tr = length (filter is_query tr)"

definition delays :: "log \<Rightarrow> nat" where
  "delays tr = length (filter is_delay tr)"

text \<open>
  A reply the loop treats as "still running": the query returns, and its status is none
  of the four terminal ones. \<^verbatim>\<open>RUNNING\<close> is such a status.
\<close>

definition still_running :: "reply \<Rightarrow> bool" where
  "still_running r =
     (case r of
        Raises e \<Rightarrow> False
      | Response response \<Rightarrow>
          (case response ''status'' of
             None \<Rightarrow> False
           | Some s \<Rightarrow> s \<notin> set [''SUCCEEDED'', ''FAILED'', ''TIMED_OUT'', ''ABORTED'']))"

subsection \<open>Example services\<close>

text \<open>
  Concrete services for the examples below: a parser that knows a handful of documents
  and rejects everything else, a submission endpoint that answers HTTP 200 with a given
  body, and a status service that answers from a given sequence of replies.
\<close>

definition example_loads :: "string \<Rightarrow> string + json" where
  \<open>example_loads s =
     (if s = ''{}'' then Inr (JObj [])
      else if s = ''[]'' then Inr (JArr [])
      else if s = ''{"executionArn":"arn:aws:states:demo"}''
        then Inr (JObj [(''executionArn'', JStr ''arn:aws:states:demo'')])
      else if s = ''{"message":"accepted"}''
        then Inr (JObj [(''message'', JStr ''accepted'')])
      else if s = ''{"visual_analysis":{"output":{}}}''
        then Inr (JObj [(''visual_analysis'', JObj [(''output'', JObj [])])])
      else Inl ''Expecting value: line 1 column 1 (char 0)'')\<close>

definition example_services :: "string \<Rightarrow> (nat \<Rightarrow> reply) \<Rightarrow> services" where
  "example_services body replies =
     \<lparr>json_loads = example_loads, json_dumps = (\<lambda>j. ''{}''),
      requests_post = (\<lambda>p. HttpResponse 200 body), boto3_client = None,
      describe_execution = (\<lambda>arn. replies)\<rparr>"

definition running_reply :: reply where
  "running_reply = Response [''status'' \<mapsto> ''RUNNING'']"

definition succeeded_reply :: "string \<Rightarrow> reply" where
  "succeeded_reply out = Response [''status'' \<mapsto> ''SUCCEEDED'', ''output'' \<mapsto> out]"

text \<open>The status sequence running, running, succeeded with the given output.\<close>

definition two_then_succeeded :: "string \<Rightarrow> nat \<Rightarrow> reply" where
  "two_then_succeeded out i = (if i < 2 then running_reply else succeeded_reply out)"

subsection \<open>Example image library\<close>

text \<open>
  One attempt of the aggressive stage on a copy \<open>c\<close> of the image \<open>img\<close>, as it shows in
  the trace.
\<close>

definition attempt :: "iref \<Rightarrow> iref \<Rightarrow> nat \<times> nat \<Rightarrow> event list" where
  "attempt img c sz = [Copied img c, Thumbnailed c sz, Saved c]"

text \<open>
  A concrete image library for the examples below. An image is its largest side and its
  mode; every file opens as a 4000-pixel RGB image of the given format with nothing to
  crop; \<open>enc\<close> gives the number of bytes of an image's PNG encoding.
\<close>

definition example_pil :: "string \<Rightarrow> (nat \<times> string \<Rightarrow> nat) \<Rightarrow> (nat \<times> string) pil" where
  "example_pil fmt enc =
     \<lparr>pil_open = (\<lambda>file. Inr (4000, ''RGB'')),
      pil_format = (\<lambda>v. Some fmt),
      pil_mode = snd,
      pil_convert = (\<lambda>v mode. Inr (fst v, mode)),
      pil_getbbox = (\<lambda>v. None),
      pil_crop = (\<lambda>v bbox. Inr v),
      pil_thumbnail = (\<lambda>v sz resample. Inr (min (fst v) (min (fst sz) (snd sz)), snd v)),
      pil_save = (\<lambda>v fmt optimize quality. Inr (replicate (enc v) (CHR ''x'')))\<rparr>"

text \<open>
  Encodings that carry 260,000 bytes besides the pixels (an embedded colour profile, say):
  no resizing brings them under the budget. In the second one the grayscale encoding
  drops them.
\<close>

definition over_budget_enc :: "nat \<times> string \<Rightarrow> nat" where
  "over_budget_enc v = 260000 + fst v"

definition gray_fits_enc :: "nat \<times> string \<Rightarrow> nat" where
  "gray_fits_enc v = (if snd v = ''L'' then fst v else 260000 + fst v)"

definition empty_world :: "'v world" where
  "empty_world = \<lparr>heap = [], trace = []\<rparr>"

text \<open>The world of the example library after lines 60-80 of \<^verbatim>\<open>compress_image\<close>.\<close>

definition resized_world :: "(nat \<times> string) world" where
  "resized_world = \<lparr>heap = [(500, ''RGB'')], trace = [Opened 0, Thumbnailed 0 (500, 500), Saved 0]\<rparr>"

section \<open>Properties\<close>

subsection \<open>Evaluation of decimal numerals\<close>

lemma str_nat_small: "n < 10 \<Longrightarrow> str_nat n = [digit_char n]"
  by (subst str_nat.simps) simp

lemma str_nat_big: "10 \<le> n \<Longrightarrow> str_nat n = str_nat (n div 10) @ [digit_char (n mod 10)]"
  by (subst str_nat.simps) simp

subsection \<open>Payload validator\<close>

text \<open>
  C7. \<^verbatim>\<open>validate_input\<close> is a function of its argument alone (it takes and returns no
  world). An absent payload (\<^verbatim>\<open>None\<close> or the empty string) fails with the no-image-data
  message; a payload of more than 262,000 encoded bytes fails with a message that contains
  the decimal size; every other payload, that is every non-empty one of at most 262,000
  bytes, passes with an empty message.
\<close>

theorem validate_input_cases:
  "validate_input None = (False, ''No image data provided'')
   \<and> validate_input (Some []) = (False, ''No image data provided'')
   \<and> (262000 < length s \<longrightarrow> validate_input (Some s) =
         (False, ''Image too large ('' @ str_nat (length s) @
                 '' bytes). Maximum allowed is 262144 bytes.''))
   \<and> (s \<noteq> [] \<and> length s \<le> 262000 \<longrightarrow> validate_input (Some s) = (True, ''''))"
  by (auto simp: validate_input_def)

theorem validate_input_cases_witness:
  "262000 < length (replicate 262001 (CHR ''A''))
   \<and> validate_input (Some (replicate 262001 (CHR ''A''))) =
         (False, ''Image too large (262001 bytes). Maximum allowed is 262144 bytes.'')
   \<and> ''QUJD'' \<noteq> [] \<and> length ''QUJD'' \<le> 262000
   \<and> validate_input (Some ''QUJD'') = (True, '''')"
  using validate_input_cases [of "replicate 262001 (CHR ''A'')"] validate_input_cases [of "''QUJD''"]
  by (simp add: str_nat_small str_nat_big digit_char_def)

text \<open>
  C9. A payload of more than 262,000 and at most 262,144 encoded bytes is rejected, and
  the message it is rejected with names 262144 bytes as the maximum: the bound the code
  enforces is 262,000.
\<close>

theorem validate_input_announced_limit:
  assumes "262000 < length s" and "length s \<le> 262144"
  shows "validate_input (Some s) =
           (False, ''Image too large ('' @ str_nat (length s) @
                   '' bytes). Maximum allowed is 262144 bytes.'')"
proof -
  from assms have "s \<noteq> []" by auto
  with assms show ?thesis by (simp add: validate_input_def)
qed

theorem validate_input_announced_limit_witness:
  "262000 < length (replicate 262144 (CHR ''A'')) \<and> length (replicate 262144 (CHR ''A'')) \<le> 262144
   \<and> validate_input (Some (replicate 262144 (CHR ''A''))) =
         (False, ''Image too large (262144 bytes). Maximum allowed is 262144 bytes.'')"
  using validate_input_announced_limit [of "replicate 262144 (CHR ''A'')"]
  by (simp add: str_nat_small str_nat_big digit_char_def)

subsection \<open>The polling loop\<close>

lemma queries_simps:
  "queries [] = 0"
  "queries (e # tr) = (if is_query e then 1 else 0) + queries tr"
  "queries (tr @ tr') = queries tr + queries tr'"
  by (simp_all add: queries_def)

lemma delays_simps:
  "delays [] = 0"
  "delays (e # tr) = (if is_delay e then 1 else 0) + delays tr"
  "delays (tr @ tr') = delays tr + delays tr'"
  by (simp_all add: delays_def)

lemma queries_rounds: "queries (concat (replicate k [Described arn, Slept delay])) = k"
  by (induction k) (simp_all add: queries_simps)

lemma delays_rounds: "delays (concat (replicate k [Described arn, Slept delay])) = k"
  by (induction k) (simp_all add: delays_simps)

text \<open>One iteration on a running job: a query, a delay, and the next iteration.\<close>

lemma poll_loop_running_step:
  "still_running (describe_execution S arn i) \<Longrightarrow>
   poll_loop S arn delay i (Suc n) tr =
     poll_loop S arn delay (Suc i) n (tr @ [Described arn, Slept delay])"
  by (auto simp: still_running_def split: reply.splits option.splits)

lemma poll_loop_running:
  "(\<forall>j<k. still_running (describe_execution S arn (i + j))) \<Longrightarrow>
   poll_loop S arn delay i (k + n) tr =
     poll_loop S arn delay (i + k) n (tr @ concat (replicate k [Described arn, Slept delay]))"
proof (induction k arbitrary: i tr)
  case 0
  then show ?case by simp
next
  case (Suc k)
  have first: "still_running (describe_execution S arn i)"
    using Suc.prems by force
  have rest: "\<forall>j<k. still_running (describe_execution S arn (Suc i + j))"
    using Suc.prems by (metis Suc_less_eq add_Suc_shift)
  show ?case
    using poll_loop_running_step [OF first] Suc.IH [OF rest]
    by (simp del: poll_loop.simps)
qed

lemma poll_loop_succeeded:
  assumes "describe_execution S arn i = Response r" "r ''status'' = Some ''SUCCEEDED''"
    and "json_loads S (case r ''output'' of None \<Rightarrow> ''{}'' | Some out \<Rightarrow> out) = Inr parsed"
  shows "poll_loop S arn delay i (Suc n) tr =
          (\<lparr>pd_status = ''SUCCEEDED'', pd_output = Some parsed, pd_error = None\<rparr>,
           tr @ [Described arn])"
  using assms by simp

lemma poll_two_then_succeeded:
  assumes client: "boto3_client S = None"
    and r0: "still_running (describe_execution S arn 0)"
    and r1: "still_running (describe_execution S arn 1)"
    and fin: "describe_execution S arn 2 = Response r" "r ''status'' = Some ''SUCCEEDED''"
    and out: "json_loads S (case r ''output'' of None \<Rightarrow> ''{}'' | Some out \<Rightarrow> out) = Inr parsed"
  shows "poll_execution_status S arn 30 2 tr =
           (Inr \<lparr>pd_status = ''SUCCEEDED'', pd_output = Some parsed, pd_error = None\<rparr>,
            tr @ [Described arn, Slept 2, Described arn, Slept 2, Described arn])"
proof -
  have run: "\<forall>j<2. still_running (describe_execution S arn (0 + j))"
    using r0 r1 by (simp add: less_Suc_eq numeral_2_eq_2)
  have a: "poll_loop S arn 2 0 (2 + Suc 27) tr =
          poll_loop S arn 2 (0 + 2) (Suc 27) (tr @ concat (replicate 2 [Described arn, Slept 2]))"
    using run by (rule poll_loop_running)
  note b = poll_loop_succeeded [OF fin out, where delay = 2 and n = 27]
  have c: "2 + Suc 27 = (30::nat)" by simp
  have d: "concat (replicate 2 [Described arn, Slept 2]) =
             [Described arn, Slept 2, Described arn, Slept 2]"
    by (simp add: numeral_2_eq_2)
  have e: "(0::nat) + 2 = 2" by simp
  from a have "poll_loop S arn 2 0 30 tr =
      poll_loop S arn 2 2 (Suc 27) (tr @ [Described arn, Slept 2, Described arn, Slept 2])"
    unfolding c d e .
  also have "\<dots> = (\<lparr>pd_status = ''SUCCEEDED'', pd_output = Some parsed, pd_error = None\<rparr>,
           (tr @ [Described arn, Slept 2, Described arn, Slept 2]) @ [Described arn])"
    by (rule b)
  finally have "poll_loop S arn 2 0 30 tr =
          (\<lparr>pd_status = ''SUCCEEDED'', pd_output = Some parsed, pd_error = None\<rparr>,
           tr @ [Described arn, Slept 2, Described arn, Slept 2, Described arn])"
    by simp
  with client show ?thesis
    by (simp add: poll_execution_status_def)
qed

lemma example_replies [simp]:
  "still_running running_reply"
  "\<not> still_running (succeeded_reply out)"
  by (simp_all add: still_running_def running_reply_def succeeded_reply_def)

lemma example_services_simps [simp]:
  "json_loads (example_services body replies) = example_loads"
  "requests_post (example_services body replies) p = HttpResponse 200 body"
  "boto3_client (example_services body replies) = None"
  "describe_execution (example_services body replies) arn = replies"
  by (simp_all add: example_services_def)

text \<open>
  C3. If the status query reports a running job on each of the 30 attempts,
  \<^verbatim>\<open>poll_execution_status\<close> returns the exhausted-budget dictionary (status \<^verbatim>\<open>TIMEOUT\<close>, the
  code's name for the spec's POLL_EXHAUSTED) with the fixed message
  \<^verbatim>\<open>Maximum polling attempts reached\<close>, and the trace it leaves holds exactly 30 status
  queries more than the trace it started from.
\<close>

theorem poll_exhausted_after_30:
  assumes client: "boto3_client S = None"
    and run: "\<forall>i<30. still_running (describe_execution S arn i)"
  shows "fst (poll_execution_status S arn 30 2 tr) =
           Inr \<lparr>pd_status = ''TIMEOUT'', pd_output = None,
                pd_error = Some ''Maximum polling attempts reached''\<rparr>
         \<and> queries (snd (poll_execution_status S arn 30 2 tr)) = queries tr + 30"
proof -
  from run have "\<forall>j<30. still_running (describe_execution S arn (0 + j))" by simp
  from poll_loop_running [OF this, of 2 0 tr]
  have "poll_loop S arn 2 0 30 tr =
          poll_loop S arn 2 30 0 (tr @ concat (replicate 30 [Described arn, Slept 2]))"
    by simp
  with client show ?thesis
    by (simp add: poll_execution_status_def queries_simps queries_rounds)
qed

theorem poll_exhausted_after_30_witness:
  "fst (poll_execution_status (example_services ''{}'' (\<lambda>i. running_reply))
            (JStr ''arn:aws:states:demo'') 30 2 []) =
         Inr \<lparr>pd_status = ''TIMEOUT'', pd_output = None,
              pd_error = Some ''Maximum polling attempts reached''\<rparr>
   \<and> queries (snd (poll_execution_status (example_services ''{}'' (\<lambda>i. running_reply))
            (JStr ''arn:aws:states:demo'') 30 2 [])) = 30"
  using poll_exhausted_after_30 [of "example_services ''{}'' (\<lambda>i. running_reply)"
      "JStr ''arn:aws:states:demo''" "[]"]
  by (simp add: queries_simps)

text \<open>
  C4. If, after any number of attempts that found the job running, the status query
  reports \<^verbatim>\<open>SUCCEEDED\<close> with an output field that \<^verbatim>\<open>json.loads\<close> rejects,
  \<^verbatim>\<open>poll_execution_status\<close> returns a dictionary whose status is \<^verbatim>\<open>ERROR\<close>, not
  \<^verbatim>\<open>SUCCEEDED\<close>, with the error \<^verbatim>\<open>Invalid JSON output\<close> and no output.
\<close>

theorem unparseable_output_is_error:
  assumes client: "boto3_client S = None"
    and k: "k < max_attempts"
    and run: "\<forall>j<k. still_running (describe_execution S arn j)"
    and fin: "describe_execution S arn k = Response r" "r ''status'' = Some ''SUCCEEDED''"
    and out: "r ''output'' = Some out" "json_loads S out = Inl e"
  shows "\<exists>d. fst (poll_execution_status S arn max_attempts delay tr) = Inr d
           \<and> pd_status d = ''ERROR'' \<and> pd_status d \<noteq> ''SUCCEEDED''
           \<and> pd_error d = Some ''Invalid JSON output'' \<and> pd_output d = None"
proof -
  from k obtain n where n: "max_attempts = k + Suc n"
    by (metis add_Suc_right less_imp_Suc_add)
  from run have "\<forall>j<k. still_running (describe_execution S arn (0 + j))" by simp
  from poll_loop_running [OF this, of delay "Suc n" tr]
  have "poll_loop S arn delay 0 max_attempts tr =
          poll_loop S arn delay k (Suc n) (tr @ concat (replicate k [Described arn, Slept delay]))"
    by (simp add: n del: poll_loop.simps)
  with client fin out show ?thesis
    by (simp add: poll_execution_status_def)
qed

theorem unparseable_output_is_error_witness:
  "\<exists>d. fst (poll_execution_status
              (example_services ''{}'' (\<lambda>i. if i < 1 then running_reply else succeeded_reply ''<html>''))
              (JStr ''arn:aws:states:demo'') 30 2 []) = Inr d
       \<and> pd_status d = ''ERROR'' \<and> pd_status d \<noteq> ''SUCCEEDED''
       \<and> pd_error d = Some ''Invalid JSON output'' \<and> pd_output d = None"
proof -
  let ?S = "example_services ''{}'' (\<lambda>i. if i < 1 then running_reply else succeeded_reply ''<html>'')"
  let ?r = "[''status'' \<mapsto> ''SUCCEEDED'', ''output'' \<mapsto> ''<html>'']"
  have h1: "boto3_client ?S = None" by simp
  have h2: "(1::nat) < 30" by simp
  have h3: "\<forall>j<1. still_running (describe_execution ?S (JStr ''arn:aws:states:demo'') j)" by simp
  have h4: "describe_execution ?S (JStr ''arn:aws:states:demo'') 1 = Response ?r"
    by (simp add: succeeded_reply_def)
  have h5: "?r ''status'' = Some ''SUCCEEDED''" by simp
  have h6: "?r ''output'' = Some ''<html>''" by simp
  have h7: "json_loads ?S ''<html>'' = Inl ''Expecting value: line 1 column 1 (char 0)''"
    by (simp add: example_loads_def)
  from unparseable_output_is_error [OF h1 h2 h3 h4 h5 h6 h7] show ?thesis .
qed

subsection \<open>Submission and result extraction\<close>

text \<open>
  C5, as the code has it. Given the status sequence running, running, succeeded, where
  the output parses to a JSON object: \<^verbatim>\<open>poll_execution_status\<close> returns \<^verbatim>\<open>SUCCEEDED\<close>
  with the parsed output after exactly two delays, and \<^verbatim>\<open>trigger_analysis\<close> (for a valid
  payload, an HTTP 200 answer and a job handle) returns a mapping whose keys are exactly
  \<^verbatim>\<open>visual_analysis\<close>, \<^verbatim>\<open>activity_pattern\<close> and \<^verbatim>\<open>productivity_assessment\<close>, each bound to
  its value in the parsed output, or to the empty mapping when the output lacks the key.
\<close>

theorem succeeded_after_two_delays:
  assumes client: "boto3_client S = None"
    and r0: "still_running (describe_execution S arn 0)"
    and r1: "still_running (describe_execution S arn 1)"
    and fin: "describe_execution S arn 2 = Response r" "r ''status'' = Some ''SUCCEEDED''"
    and out: "json_loads S (case r ''output'' of None \<Rightarrow> ''{}'' | Some out \<Rightarrow> out) = Inr (JObj kv)"
    and valid: "validate_input image_base64 = (True, '''')"
    and sub: "requests_post S (submission_payload S image_base64) = HttpResponse 200 text"
             "json_loads S text = Inr result"
             "py_get result ''executionArn'' JNull = Inr arn" "truthy arn"
  shows "fst (poll_execution_status S arn 30 2 tr) =
           Inr \<lparr>pd_status = ''SUCCEEDED'', pd_output = Some (JObj kv), pd_error = None\<rparr>
         \<and> delays (snd (poll_execution_status S arn 30 2 tr)) = delays tr + 2
         \<and> delays (snd (trigger_analysis S image_base64 tr)) = delays tr + 2
         \<and> (\<exists>m. fst (trigger_analysis S image_base64 tr) = Some m
                \<and> dom m = {''visual_analysis'', ''activity_pattern'', ''productivity_assessment''}
                \<and> (\<forall>k \<in> dom m. m k = Some (case map_of kv k of None \<Rightarrow> JObj [] | Some v \<Rightarrow> v)))"
proof -
  note p = poll_two_then_succeeded [OF client r0 r1 fin out]
  have t: "trigger_analysis S image_base64 tr =
          (Some [''visual_analysis'' \<mapsto>
                    (case map_of kv ''visual_analysis'' of None \<Rightarrow> JObj [] | Some v \<Rightarrow> v),
                 ''activity_pattern'' \<mapsto>
                    (case map_of kv ''activity_pattern'' of None \<Rightarrow> JObj [] | Some v \<Rightarrow> v),
                 ''productivity_assessment'' \<mapsto>
                    (case map_of kv ''productivity_assessment'' of None \<Rightarrow> JObj [] | Some v \<Rightarrow> v)],
           tr @ [Posted (submission_payload S image_base64), StInfo ''Analysis started...'',
                 Described arn, Slept 2, Described arn, Slept 2, Described arn])"
    using valid sub
    by (simp add: trigger_analysis_def trigger_body_def andthen_def post_def lift_def say_def
        ret_def p py_get_def)
  show ?thesis
    by (auto simp: p t delays_simps)
qed

theorem succeeded_after_two_delays_witness:
  \<open>fst (poll_execution_status
          (example_services ''{"executionArn":"arn:aws:states:demo"}''
             (two_then_succeeded ''{"visual_analysis":{"output":{}}}''))
          (JStr ''arn:aws:states:demo'') 30 2 []) =
      Inr \<lparr>pd_status = ''SUCCEEDED'',
           pd_output = Some (JObj [(''visual_analysis'', JObj [(''output'', JObj [])])]),
           pd_error = None\<rparr>
   \<and> delays (snd (trigger_analysis
          (example_services ''{"executionArn":"arn:aws:states:demo"}''
             (two_then_succeeded ''{"visual_analysis":{"output":{}}}''))
          (Some ''QUJD'') [])) = 2
   \<and> (\<exists>m. fst (trigger_analysis
          (example_services ''{"executionArn":"arn:aws:states:demo"}''
             (two_then_succeeded ''{"visual_analysis":{"output":{}}}''))
          (Some ''QUJD'') []) = Some m
        \<and> m ''visual_analysis'' = Some (JObj [(''output'', JObj [])])
        \<and> m ''activity_pattern'' = Some (JObj [])
        \<and> m ''productivity_assessment'' = Some (JObj []))\<close>
proof -
  let ?S = \<open>example_services ''{"executionArn":"arn:aws:states:demo"}''
             (two_then_succeeded ''{"visual_analysis":{"output":{}}}'')\<close>
  let ?arn = "JStr ''arn:aws:states:demo''"
  let ?r = \<open>[''status'' \<mapsto> ''SUCCEEDED'', ''output'' \<mapsto> ''{"visual_analysis":{"output":{}}}'']\<close>
  have h1: "boto3_client ?S = None" by simp
  have h2: "still_running (describe_execution ?S ?arn 0)" by (simp add: two_then_succeeded_def)
  have h3: "still_running (describe_execution ?S ?arn 1)" by (simp add: two_then_succeeded_def)
  have h4: "describe_execution ?S ?arn 2 = Response ?r"
    by (simp add: two_then_succeeded_def succeeded_reply_def)
  have h5: "?r ''status'' = Some ''SUCCEEDED''" by simp
  have h6: "json_loads ?S (case ?r ''output'' of None \<Rightarrow> ''{}'' | Some out \<Rightarrow> out) =
              Inr (JObj [(''visual_analysis'', JObj [(''output'', JObj [])])])"
    by (simp add: example_loads_def)
  have h7: "validate_input (Some ''QUJD'') = (True, '''')" by (simp add: validate_input_def)
  have h8: \<open>requests_post ?S (submission_payload ?S (Some ''QUJD'')) =
              HttpResponse 200 ''{"executionArn":"arn:aws:states:demo"}''\<close> by simp
  have h9: \<open>json_loads ?S ''{"executionArn":"arn:aws:states:demo"}'' =
              Inr (JObj [(''executionArn'', JStr ''arn:aws:states:demo'')])\<close>
    by (simp add: example_loads_def)
  have h10: "py_get (JObj [(''executionArn'', JStr ''arn:aws:states:demo'')]) ''executionArn'' JNull =
               Inr ?arn"
    by (simp add: py_get_def)
  have h11: "truthy ?arn" by simp
  note T = succeeded_after_two_delays [OF h1 h2 h3 h4 h5 h6 h7 h8 h9 h10 h11, of "[]"]
  note a = T [THEN conjunct1]
  note b = T [THEN conjunct2, THEN conjunct2, THEN conjunct1]
  from T [THEN conjunct2, THEN conjunct2, THEN conjunct2]
  obtain m where M: "fst (trigger_analysis ?S (Some ''QUJD'') []) = Some m
      \<and> dom m = {''visual_analysis'', ''activity_pattern'', ''productivity_assessment''}
      \<and> (\<forall>k \<in> dom m. m k = Some (case map_of [(''visual_analysis'', JObj [(''output'', JObj [])])] k
                                          of None \<Rightarrow> JObj [] | Some v \<Rightarrow> v))" ..
  note c = M [THEN conjunct1]
  note d = M [THEN conjunct2, THEN conjunct1]
  note e = M [THEN conjunct2, THEN conjunct2]
  have k1: "''visual_analysis'' \<in> dom m" and k2: "''activity_pattern'' \<in> dom m"
    and k3: "''productivity_assessment'' \<in> dom m"
    unfolding d by simp_all
  have m1: "m ''visual_analysis'' = Some (JObj [(''output'', JObj [])])"
    using bspec [OF e k1] by simp
  have m2: "m ''activity_pattern'' = Some (JObj [])"
    using bspec [OF e k2] by simp
  have m3: "m ''productivity_assessment'' = Some (JObj [])"
    using bspec [OF e k3] by simp
  from b have b': "delays (snd (trigger_analysis ?S (Some ''QUJD'') [])) = 2"
    by (simp add: delays_simps)
  show ?thesis
    by (intro conjI exI [where x = m]) (fact a b' c m1 m2 m3)+
qed

text \<open>
  C5 as stated asks only for a parseable output. An output that parses to a JSON value
  other than an object, here the array \<^verbatim>\<open>[]\<close>, is parseable: \<^verbatim>\<open>poll_execution_status\<close>
  returns \<^verbatim>\<open>SUCCEEDED\<close> with it, \<^verbatim>\<open>output.get\<close> then raises, the handler of
  \<^verbatim>\<open>trigger_analysis\<close> catches the exception, and the caller gets \<^verbatim>\<open>None\<close>, not a mapping.
\<close>

theorem array_output_counterexample:
  \<open>fst (poll_execution_status
          (example_services ''{"executionArn":"arn:aws:states:demo"}'' (two_then_succeeded ''[]''))
          (JStr ''arn:aws:states:demo'') 30 2 []) =
      Inr \<lparr>pd_status = ''SUCCEEDED'', pd_output = Some (JArr []), pd_error = None\<rparr>
   \<and> json_loads (example_services ''{"executionArn":"arn:aws:states:demo"}'' (two_then_succeeded ''[]''))
        ''[]'' = Inr (JArr [])
   \<and> fst (trigger_analysis
          (example_services ''{"executionArn":"arn:aws:states:demo"}'' (two_then_succeeded ''[]''))
          (Some ''QUJD'') []) = None\<close>
proof -
  let ?S = \<open>example_services ''{"executionArn":"arn:aws:states:demo"}'' (two_then_succeeded ''[]'')\<close>
  let ?arn = "JStr ''arn:aws:states:demo''"
  let ?r = \<open>[''status'' \<mapsto> ''SUCCEEDED'', ''output'' \<mapsto> ''[]'']\<close>
  have h1: "boto3_client ?S = None" by simp
  have h2: "still_running (describe_execution ?S ?arn 0)" by (simp add: two_then_succeeded_def)
  have h3: "still_running (describe_execution ?S ?arn 1)" by (simp add: two_then_succeeded_def)
  have h4: "describe_execution ?S ?arn 2 = Response ?r"
    by (simp add: two_then_succeeded_def succeeded_reply_def)
  have h5: "?r ''status'' = Some ''SUCCEEDED''" by simp
  have h6: "json_loads ?S (case ?r ''output'' of None \<Rightarrow> ''{}'' | Some out \<Rightarrow> out) = Inr (JArr [])"
    by (simp add: example_loads_def)
  note p = poll_two_then_succeeded [OF h1 h2 h3 h4 h5 h6]
  have l: \<open>example_loads ''{"executionArn":"arn:aws:states:demo"}'' =
              Inr (JObj [(''executionArn'', JStr ''arn:aws:states:demo'')])\<close>
    by (simp add: example_loads_def)
  have t: "fst (trigger_analysis ?S (Some ''QUJD'') []) = None"
    by (simp add: trigger_analysis_def trigger_body_def andthen_def post_def lift_def say_def
        ret_def p py_get_def validate_input_def l)
  show ?thesis
    using p [of "[]"] t by (simp add: example_loads_def)
qed

text \<open>
  C6. If the submission endpoint answers HTTP 200 with a body that parses to an object
  without the key \<^verbatim>\<open>executionArn\<close>, \<^verbatim>\<open>trigger_analysis\<close> returns \<^verbatim>\<open>None\<close>, shows the
  error \<^verbatim>\<open>No execution ARN received\<close>, and makes no status query: the trace gains the
  submission and the error message only.
\<close>

theorem no_job_handle_no_polling:
  assumes valid: "validate_input image_base64 = (True, '''')"
    and sub: "requests_post S (submission_payload S image_base64) = HttpResponse 200 text"
    and body: "json_loads S text = Inr (JObj kv)"
    and nokey: "map_of kv ''executionArn'' = None"
  shows "trigger_analysis S image_base64 tr =
           (None, tr @ [Posted (submission_payload S image_base64),
                        StError ''No execution ARN received''])
         \<and> queries (snd (trigger_analysis S image_base64 tr)) = queries tr"
proof -
  have t: "trigger_analysis S image_base64 tr =
           (None, tr @ [Posted (submission_payload S image_base64),
                        StError ''No execution ARN received''])"
    using assms
    by (simp add: trigger_analysis_def trigger_body_def andthen_def post_def lift_def say_def
        ret_def py_get_def)
  show ?thesis by (simp add: t queries_simps)
qed

theorem no_job_handle_no_polling_witness:
  \<open>trigger_analysis (example_services ''{"message":"accepted"}'' (\<lambda>i. running_reply)) (Some ''QUJD'') [] =
     (None, [Posted (JObj [(''input'', JStr ''{}'')]), StError ''No execution ARN received''])
   \<and> queries (snd (trigger_analysis (example_services ''{"message":"accepted"}'' (\<lambda>i. running_reply))
        (Some ''QUJD'') [])) = 0\<close>
proof -
  let ?S = \<open>example_services ''{"message":"accepted"}'' (\<lambda>i. running_reply)\<close>
  have h1: "validate_input (Some ''QUJD'') = (True, '''')" by (simp add: validate_input_def)
  have h2: \<open>requests_post ?S (submission_payload ?S (Some ''QUJD'')) =
              HttpResponse 200 ''{"message":"accepted"}''\<close> by simp
  have h3: \<open>json_loads ?S ''{"message":"accepted"}'' = Inr (JObj [(''message'', JStr ''accepted'')])\<close>
    by (simp add: example_loads_def)
  have h4: "map_of [(''message'', JStr ''accepted'')] ''executionArn'' = None" by simp
  from no_job_handle_no_polling [OF h1 h2 h3 h4, of "[]"]
  show ?thesis
    by (simp add: queries_simps submission_payload_def example_services_def)
qed

subsection \<open>The image store\<close>

text \<open>
  Thumbnailing changes one object and saving none; the store keeps its other objects.
\<close>

lemma img_thumbnail_heap:
  "img_thumbnail P c sz rs w = (r, w') \<Longrightarrow>
     length (heap w') = length (heap w) \<and> (\<forall>i. i \<noteq> c \<longrightarrow> heap w' ! i = heap w ! i)"
  by (auto simp: img_thumbnail_def emit_def split: sum.splits)

lemma img_save_heap: "img_save P c fmt opt q w = (r, w') \<Longrightarrow> heap w' = heap w"
  by (auto simp: img_save_def emit_def split: sum.splits)

text \<open>
  Whatever the aggressive stage returns, the object it was given has the contents it had.
\<close>

lemma aggressive_loop_frame:
  "aggressive_loop P img sizes w = (r, w') \<Longrightarrow> img < length (heap w) \<Longrightarrow>
     length (heap w) \<le> length (heap w') \<and> heap w' ! img = heap w ! img"
proof (induction sizes arbitrary: w)
  case Nil
  then show ?case by (simp add: ret_def)
next
  case (Cons sz sizes)
  let ?n = "length (heap w)"
  obtain w1 where c: "img_copy img w = (Inr ?n, w1)" and h1: "heap w1 = heap w @ [heap w ! img]"
    by (simp add: img_copy_def emit_def)
  obtain r2 w2 where t: "img_thumbnail P ?n sz None w1 = (r2, w2)" by fastforce
  from img_thumbnail_heap [OF t] h1 Cons.prems(2)
  have h2: "length (heap w2) = Suc ?n" "heap w2 ! img = heap w ! img"
    by (auto simp: nth_append)
  show ?case
  proof (cases r2)
    case (Inl e)
    with Cons.prems c t h2 show ?thesis
      by (auto simp: andthen_def)
  next
    case (Inr u)
    obtain r3 w3 where s: "img_save P ?n ''PNG'' True None w2 = (r3, w3)" by fastforce
    from img_save_heap [OF s] h2
    have h3: "length (heap w3) = Suc ?n" "heap w3 ! img = heap w ! img" by auto
    show ?thesis
    proof (cases r3)
      case (Inl e)
      with Cons.prems c t s Inr h3 show ?thesis by (auto simp: andthen_def)
    next
      case (Inr buffer)
      show ?thesis
      proof (cases "length buffer \<le> 250000")
        case True
        with Cons.prems c t s \<open>r2 = Inr u\<close> Inr h3 show ?thesis
          by (auto simp: andthen_def ret_def)
      next
        case False
        with Cons.prems(1) c t s \<open>r2 = Inr u\<close> Inr
        have rec: "aggressive_loop P img sizes w3 = (r, w')"
          by (auto simp: andthen_def)
        from Cons.prems(2) h3 have "img < length (heap w3)" by simp
        from Cons.IH [OF rec this] h3 show ?thesis by simp
      qed
    qed
  qed
qed

lemma aggressive_round:
  assumes "img < length (heap w)"
    and "pil_thumbnail P (heap w ! img) sz None = Inr t"
    and "pil_save P t ''PNG'' True None = Inr b"
  shows "aggressive_loop P img (sz # sizes) w =
           (if length b \<le> 250000
            then (Inr (Some b), w\<lparr>heap := heap w @ [t],
                                  trace := trace w @ attempt img (length (heap w)) sz\<rparr>)
            else aggressive_loop P img sizes
                   (w\<lparr>heap := heap w @ [t],
                      trace := trace w @ attempt img (length (heap w)) sz\<rparr>))"
  using assms
  by (simp add: andthen_def img_copy_def img_thumbnail_def img_save_def emit_def ret_def
      attempt_def)

lemma resize_to_500_result:
  assumes "resize_to_500 P img0 w0 = (Inr (img, buffer), w)" and "img0 < length (heap w0)"
  shows "img < length (heap w)
         \<and> (\<exists>v. pil_thumbnail P v (500, 500) (Some LANCZOS) = Inr (heap w ! img))
         \<and> pil_save P (heap w ! img) ''PNG'' True (Some 85) = Inr buffer"
  using assms
  by (auto simp: resize_to_500_def andthen_def auto_crop_def img_convert_def img_crop_def
      img_thumbnail_def img_save_def emit_def ret_def nth_append
      split: sum.splits option.splits if_splits prod.splits)

lemma compress_body_over_budget:
  assumes "pil_open P file = Inr v0"
    and "\<not> (length file \<le> 250000 \<and> pil_format P v0 = Some ''PNG'')"
    and "resize_to_500 P (length (heap w0))
           (w0\<lparr>heap := heap w0 @ [v0], trace := trace w0 @ [Opened (length (heap w0))]\<rparr>) =
         (Inr (img, buffer), w)"
    and "250000 < length buffer"
  shows "compress_body P file w0 = further_compression P img w"
  using assms
  by (auto simp: compress_body_def andthen_def img_open_def emit_def ret_def)

lemma further_compression_stages:
  assumes ref: "img < length (heap w)"
    and t4: "pil_thumbnail P (heap w ! img) (400, 400) None = Inr t4"
    and b4: "pil_save P t4 ''PNG'' True None = Inr b4"
    and t3: "pil_thumbnail P (heap w ! img) (300, 300) None = Inr t3"
    and b3: "pil_save P t3 ''PNG'' True None = Inr b3"
    and t2: "pil_thumbnail P (heap w ! img) (200, 200) None = Inr t2"
    and b2: "pil_save P t2 ''PNG'' True None = Inr b2"
  shows "further_compression P img w =
     (if length b4 \<le> 250000 then
        (Inr b4, w\<lparr>heap := heap w @ [t4],
                   trace := trace w @ StWarning ''Image is large, attempting further compression...'' #
                            attempt img (length (heap w)) (400, 400)\<rparr>)
      else if length b3 \<le> 250000 then
        (Inr b3, w\<lparr>heap := heap w @ [t4, t3],
                   trace := trace w @ StWarning ''Image is large, attempting further compression...'' #
                            attempt img (length (heap w)) (400, 400) @
                            attempt img (length (heap w) + 1) (300, 300)\<rparr>)
      else if length b2 \<le> 250000 then
        (Inr b2, w\<lparr>heap := heap w @ [t4, t3, t2],
                   trace := trace w @ StWarning ''Image is large, attempting further compression...'' #
                            attempt img (length (heap w)) (400, 400) @
                            attempt img (length (heap w) + 1) (300, 300) @
                            attempt img (length (heap w) + 2) (200, 200)\<rparr>)
      else
        andthen (img_convert P img ''L'') (\<lambda>img_gray. img_save P img_gray ''PNG'' True (Some 70))
          (w\<lparr>heap := heap w @ [t4, t3, t2],
             trace := trace w @ StWarning ''Image is large, attempting further compression...'' #
                      attempt img (length (heap w)) (400, 400) @
                      attempt img (length (heap w) + 1) (300, 300) @
                      attempt img (length (heap w) + 2) (200, 200)\<rparr>))"
proof -
  let ?w0 = "emit (StWarning ''Image is large, attempting further compression...'') w"
  let ?w1 = "?w0\<lparr>heap := heap ?w0 @ [t4],
                   trace := trace ?w0 @ attempt img (length (heap ?w0)) (400, 400)\<rparr>"
  let ?w2 = "?w1\<lparr>heap := heap ?w1 @ [t3],
                   trace := trace ?w1 @ attempt img (length (heap ?w1)) (300, 300)\<rparr>"
  let ?w3 = "?w2\<lparr>heap := heap ?w2 @ [t2],
                   trace := trace ?w2 @ attempt img (length (heap ?w2)) (200, 200)\<rparr>"
  have r0: "img < length (heap ?w0)" "heap ?w0 ! img = heap w ! img"
    using ref by (simp_all add: emit_def)
  have r1: "img < length (heap ?w1)" "heap ?w1 ! img = heap w ! img"
    using ref by (simp_all add: emit_def nth_append)
  have r2: "img < length (heap ?w2)" "heap ?w2 ! img = heap w ! img"
    using ref by (simp_all add: emit_def nth_append)
  have t4': "pil_thumbnail P (heap ?w0 ! img) (400, 400) None = Inr t4"
    by (simp only: r0(2) t4)
  have t3': "pil_thumbnail P (heap ?w1 ! img) (300, 300) None = Inr t3"
    by (simp only: r1(2) t3)
  have t2': "pil_thumbnail P (heap ?w2 ! img) (200, 200) None = Inr t2"
    by (simp only: r2(2) t2)
  have s1: "aggressive_loop P img [(400, 400), (300, 300), (200, 200)] ?w0 =
          (if length b4 \<le> 250000 then (Inr (Some b4), ?w1)
           else aggressive_loop P img [(300, 300), (200, 200)] ?w1)"
    by (rule aggressive_round [OF r0(1) t4' b4])
  have s2: "aggressive_loop P img [(300, 300), (200, 200)] ?w1 =
          (if length b3 \<le> 250000 then (Inr (Some b3), ?w2)
           else aggressive_loop P img [(200, 200)] ?w2)"
    by (rule aggressive_round [OF r1(1) t3' b3])
  have s3: "aggressive_loop P img [(200, 200)] ?w2 =
          (if length b2 \<le> 250000 then (Inr (Some b2), ?w3) else (Inr None, ?w3))"
    using aggressive_round [OF r2(1) t2' b2, of "[]"]
    by (simp only: aggressive_loop.simps(1) ret_def)
  have agg: "aggressive_compress P img ?w0 =
          (if length b4 \<le> 250000 then (Inr (Some b4), ?w1)
           else if length b3 \<le> 250000 then (Inr (Some b3), ?w2)
           else if length b2 \<le> 250000 then (Inr (Some b2), ?w3) else (Inr None, ?w3))"
    by (simp only: aggressive_compress_def s1 s2 s3)
  have f: "further_compression P img w =
      (case aggressive_compress P img ?w0 of
         (Inl e, w') \<Rightarrow> (Inl e, w')
       | (Inr compressed_buffer, w') \<Rightarrow>
           (case compressed_buffer of
              Some b \<Rightarrow> ret b
            | None \<Rightarrow> andthen (img_convert P img ''L'')
                        (\<lambda>img_gray. img_save P img_gray ''PNG'' True (Some 70))) w')"
    by (simp only: further_compression_def andthen_def ret_def prod.case sum.case)
  have w1: "?w1 = w\<lparr>heap := heap w @ [t4],
                   trace := trace w @ StWarning ''Image is large, attempting further compression...'' #
                            attempt img (length (heap w)) (400, 400)\<rparr>"
    by (simp add: emit_def)
  have w2: "?w2 = w\<lparr>heap := heap w @ [t4, t3],
                   trace := trace w @ StWarning ''Image is large, attempting further compression...'' #
                            attempt img (length (heap w)) (400, 400) @
                            attempt img (length (heap w) + 1) (300, 300)\<rparr>"
    by (simp add: emit_def)
  have w3: "?w3 = w\<lparr>heap := heap w @ [t4, t3, t2],
                   trace := trace w @ StWarning ''Image is large, attempting further compression...'' #
                            attempt img (length (heap w)) (400, 400) @
                            attempt img (length (heap w) + 1) (300, 300) @
                            attempt img (length (heap w) + 2) (200, 200)\<rparr>"
    by (simp add: emit_def)
  show ?thesis
    unfolding f agg w1 w2 w3 by (simp add: ret_def)
qed

lemma compress_image_over_budget:
  assumes "pil_open P file = Inr v0"
    and "\<not> (length file \<le> 250000 \<and> pil_format P v0 = Some ''PNG'')"
    and "resize_to_500 P (length (heap w0))
           (w0\<lparr>heap := heap w0 @ [v0], trace := trace w0 @ [Opened (length (heap w0))]\<rparr>) =
         (Inr (img, buffer), w)"
    and "250000 < length buffer"
  shows "compress_image P file w0 =
           (case further_compression P img w of
              (Inr b, w') \<Rightarrow> (Some b, w')
            | (Inl e, w') \<Rightarrow> (None, emit (StError (''Error compressing image: '' @ e)) w'))"
  by (simp only: compress_image_def compress_body_over_budget [OF assms])

lemma gray_stage:
  assumes "img < length (heap w)" and "pil_convert P (heap w ! img) ''L'' = Inr g"
    and "pil_save P g ''PNG'' True (Some 70) = Inr bg"
  shows "andthen (img_convert P img ''L'') (\<lambda>img_gray. img_save P img_gray ''PNG'' True (Some 70))
           (w\<lparr>heap := heap w @ ts, trace := tr\<rparr>) =
         (Inr bg, w\<lparr>heap := heap w @ ts @ [g],
                    trace := tr @ [Converted img ''L'' (length (heap w) + length ts),
                                   Saved (length (heap w) + length ts)]\<rparr>)"
  using assms
  by (simp add: andthen_def img_convert_def img_save_def emit_def nth_append)

text \<open>Evaluation on the example library.\<close>

lemmas run_defs = compress_image_def compress_body_def resize_to_500_def further_compression_def
  aggressive_compress_def auto_crop_def img_open_def img_copy_def img_convert_def img_crop_def
  img_thumbnail_def img_save_def emit_def ret_def andthen_def example_pil_def empty_world_def

lemma example_resize:
  "resize_to_500 (example_pil fmt enc) (length (heap empty_world))
     (empty_world\<lparr>heap := heap empty_world @ [(4000, ''RGB'')],
                  trace := trace empty_world @ [Opened (length (heap empty_world))]\<rparr>) =
   (Inr (0, replicate (enc (500, ''RGB'')) (CHR ''x'')), resized_world)"
  by (simp add: run_defs resized_world_def)

lemma example_ops:
  "pil_open (example_pil fmt enc) file = Inr (4000, ''RGB'')"
  "pil_format (example_pil fmt enc) v = Some fmt"
  "pil_thumbnail (example_pil fmt enc) (heap resized_world ! 0) (c, c) None = Inr (min 500 c, ''RGB'')"
  "pil_save (example_pil fmt enc) v ''PNG'' True q = Inr (replicate (enc v) (CHR ''x''))"
  "pil_convert (example_pil fmt enc) (heap resized_world ! 0) ''L'' = Inr (500, ''L'')"
  by (simp_all add: example_pil_def resized_world_def)

subsection \<open>Image normaliser\<close>

text \<open>
  C8. If the uploaded file opens as a PNG image and has at most 250,000 bytes,
  \<^verbatim>\<open>compress_image\<close> returns the file's own bytes, and opening the file is the only
  library call it makes: no conversion, crop, resize or re-encoding takes place.
\<close>

theorem small_png_unchanged:
  assumes "pil_open P file = Inr v" and "pil_format P v = Some ''PNG''" and "length file \<le> 250000"
  shows "compress_image P file w =
           (Some file, w\<lparr>heap := heap w @ [v], trace := trace w @ [Opened (length (heap w))]\<rparr>)"
  using assms
  by (simp add: compress_image_def compress_body_def andthen_def img_open_def emit_def ret_def)

theorem small_png_unchanged_witness:
  "compress_image (example_pil ''PNG'' (\<lambda>v. 260000 + fst v)) ''PNG-bytes'' empty_world =
     (Some ''PNG-bytes'', \<lparr>heap = [(4000, ''RGB'')], trace = [Opened 0]\<rparr>)"
  using small_png_unchanged [of "example_pil ''PNG'' (\<lambda>v. 260000 + fst v)" "''PNG-bytes''"
      "(4000, ''RGB'')" empty_world]
  by (simp add: example_pil_def empty_world_def)

text \<open>
  The stages of lines 83-95 one by one, for library calls that do not raise. Each
  statement assumes only the calls that the code makes on that path: the first cap that
  fits is returned and nothing is tried after it; when no cap fits, the image is
  converted to grayscale and encoded once, and that buffer is returned whatever its size.
\<close>

lemma further_compression_unfold:
  "further_compression P img w =
      (case aggressive_loop P img [(400, 400), (300, 300), (200, 200)]
              (emit (StWarning ''Image is large, attempting further compression...'') w) of
         (Inl e, w') \<Rightarrow> (Inl e, w')
       | (Inr compressed_buffer, w') \<Rightarrow>
           (case compressed_buffer of
              Some b \<Rightarrow> ret b
            | None \<Rightarrow> andthen (img_convert P img ''L'')
                        (\<lambda>img_gray. img_save P img_gray ''PNG'' True (Some 70))) w')"
  by (simp only: further_compression_def aggressive_compress_def andthen_def ret_def
      prod.case sum.case)

lemma further_compression_first:
  assumes ref: "img < length (heap w)"
    and t4: "pil_thumbnail P (heap w ! img) (400, 400) None = Inr t4"
    and b4: "pil_save P t4 ''PNG'' True None = Inr b4"
    and fits: "length b4 \<le> 250000"
  shows "further_compression P img w =
        (Inr b4, w\<lparr>heap := heap w @ [t4],
                   trace := trace w @ StWarning ''Image is large, attempting further compression...'' #
                            attempt img (length (heap w)) (400, 400)\<rparr>)"
proof -
  let ?w0 = "emit (StWarning ''Image is large, attempting further compression...'') w"
  let ?w1 = "?w0\<lparr>heap := heap ?w0 @ [t4],
                   trace := trace ?w0 @ attempt img (length (heap ?w0)) (400, 400)\<rparr>"
  have r0: "img < length (heap ?w0)" "heap ?w0 ! img = heap w ! img"
    using ref by (simp_all add: emit_def)
  have t4': "pil_thumbnail P (heap ?w0 ! img) (400, 400) None = Inr t4"
    by (simp only: r0(2) t4)
  have s1: "aggressive_loop P img [(400, 400), (300, 300), (200, 200)] ?w0 =
          (if length b4 \<le> 250000 then (Inr (Some b4), ?w1)
           else aggressive_loop P img [(300, 300), (200, 200)] ?w1)"
    by (rule aggressive_round [OF r0(1) t4' b4])
  have s1': "aggressive_loop P img [(400, 400), (300, 300), (200, 200)] ?w0 = (Inr (Some b4), ?w1)"
    by (simp only: s1 fits if_True)
  have w1: "?w1 = w\<lparr>heap := heap w @ [t4],
                   trace := trace w @ StWarning ''Image is large, attempting further compression...'' #
                            attempt img (length (heap w)) (400, 400)\<rparr>"
    by (simp add: emit_def)
  show ?thesis
    unfolding further_compression_unfold s1' w1 by (simp add: ret_def)
qed

lemma further_compression_second:
  assumes ref: "img < length (heap w)"
    and t4: "pil_thumbnail P (heap w ! img) (400, 400) None = Inr t4"
    and b4: "pil_save P t4 ''PNG'' True None = Inr b4"
    and t3: "pil_thumbnail P (heap w ! img) (300, 300) None = Inr t3"
    and b3: "pil_save P t3 ''PNG'' True None = Inr b3"
    and over4: "250000 < length b4"
    and fits: "length b3 \<le> 250000"
  shows "further_compression P img w =
        (Inr b3, w\<lparr>heap := heap w @ [t4, t3],
                   trace := trace w @ StWarning ''Image is large, attempting further compression...'' #
                            attempt img (length (heap w)) (400, 400) @
                            attempt img (length (heap w) + 1) (300, 300)\<rparr>)"
proof -
  let ?w0 = "emit (StWarning ''Image is large, attempting further compression...'') w"
  let ?w1 = "?w0\<lparr>heap := heap ?w0 @ [t4],
                   trace := trace ?w0 @ attempt img (length (heap ?w0)) (400, 400)\<rparr>"
  let ?w2 = "?w1\<lparr>heap := heap ?w1 @ [t3],
                   trace := trace ?w1 @ attempt img (length (heap ?w1)) (300, 300)\<rparr>"
  have r0: "img < length (heap ?w0)" "heap ?w0 ! img = heap w ! img"
    using ref by (simp_all add: emit_def)
  have r1: "img < length (heap ?w1)" "heap ?w1 ! img = heap w ! img"
    using ref by (simp_all add: emit_def nth_append)
  have t4': "pil_thumbnail P (heap ?w0 ! img) (400, 400) None = Inr t4"
    by (simp only: r0(2) t4)
  have t3': "pil_thumbnail P (heap ?w1 ! img) (300, 300) None = Inr t3"
    by (simp only: r1(2) t3)
  have n4: "\<not> length b4 \<le> 250000" using over4 by simp
  have s1: "aggressive_loop P img [(400, 400), (300, 300), (200, 200)] ?w0 =
          (if length b4 \<le> 250000 then (Inr (Some b4), ?w1)
           else aggressive_loop P img [(300, 300), (200, 200)] ?w1)"
    by (rule aggressive_round [OF r0(1) t4' b4])
  have s2: "aggressive_loop P img [(300, 300), (200, 200)] ?w1 =
          (if length b3 \<le> 250000 then (Inr (Some b3), ?w2)
           else aggressive_loop P img [(200, 200)] ?w2)"
    by (rule aggressive_round [OF r1(1) t3' b3])
  have s: "aggressive_loop P img [(400, 400), (300, 300), (200, 200)] ?w0 = (Inr (Some b3), ?w2)"
    by (simp only: s1 s2 n4 fits if_True if_False)
  have w2: "?w2 = w\<lparr>heap := heap w @ [t4, t3],
                   trace := trace w @ StWarning ''Image is large, attempting further compression...'' #
                            attempt img (length (heap w)) (400, 400) @
                            attempt img (length (heap w) + 1) (300, 300)\<rparr>"
    by (simp add: emit_def)
  show ?thesis
    unfolding further_compression_unfold s w2 by (simp add: ret_def)
qed

lemma over_budget_ref:
  assumes "resize_to_500 P (length (heap w0))
           (w0\<lparr>heap := heap w0 @ [v0], trace := trace w0 @ [Opened (length (heap w0))]\<rparr>) =
         (Inr (img, buffer), w)"
  shows "img < length (heap w)"
proof -
  have "length (heap w0) <
          length (heap (w0\<lparr>heap := heap w0 @ [v0], trace := trace w0 @ [Opened (length (heap w0))]\<rparr>))"
    by simp
  from resize_to_500_result [OF assms this] show ?thesis by blast
qed

lemma first_cap_fits:
  assumes opened: "pil_open P file = Inr v0"
    and slow: "\<not> (length file \<le> 250000 \<and> pil_format P v0 = Some ''PNG'')"
    and resized: "resize_to_500 P (length (heap w0))
           (w0\<lparr>heap := heap w0 @ [v0], trace := trace w0 @ [Opened (length (heap w0))]\<rparr>) =
         (Inr (img, buffer), w)"
    and over: "250000 < length buffer"
    and t4: "pil_thumbnail P (heap w ! img) (400, 400) None = Inr t4"
    and b4: "pil_save P t4 ''PNG'' True None = Inr b4"
    and fits: "length b4 \<le> 250000"
  shows "compress_image P file w0 =
        (Some b4, w\<lparr>heap := heap w @ [t4],
                    trace := trace w @ StWarning ''Image is large, attempting further compression...'' #
                             attempt img (length (heap w)) (400, 400)\<rparr>)"
  unfolding compress_image_over_budget [OF opened slow resized over]
    further_compression_first [OF over_budget_ref [OF resized] t4 b4 fits]
  by simp

lemma second_cap_fits:
  assumes opened: "pil_open P file = Inr v0"
    and slow: "\<not> (length file \<le> 250000 \<and> pil_format P v0 = Some ''PNG'')"
    and resized: "resize_to_500 P (length (heap w0))
           (w0\<lparr>heap := heap w0 @ [v0], trace := trace w0 @ [Opened (length (heap w0))]\<rparr>) =
         (Inr (img, buffer), w)"
    and over: "250000 < length buffer"
    and t4: "pil_thumbnail P (heap w ! img) (400, 400) None = Inr t4"
    and b4: "pil_save P t4 ''PNG'' True None = Inr b4"
    and t3: "pil_thumbnail P (heap w ! img) (300, 300) None = Inr t3"
    and b3: "pil_save P t3 ''PNG'' True None = Inr b3"
    and over4: "250000 < length b4"
    and fits: "length b3 \<le> 250000"
  shows "compress_image P file w0 =
        (Some b3, w\<lparr>heap := heap w @ [t4, t3],
                    trace := trace w @ StWarning ''Image is large, attempting further compression...'' #
                             attempt img (length (heap w)) (400, 400) @
                             attempt img (length (heap w) + 1) (300, 300)\<rparr>)"
  unfolding compress_image_over_budget [OF opened slow resized over]
    further_compression_second [OF over_budget_ref [OF resized] t4 b4 t3 b3 over4 fits]
  by simp

lemma third_cap_fits:
  assumes opened: "pil_open P file = Inr v0"
    and slow: "\<not> (length file \<le> 250000 \<and> pil_format P v0 = Some ''PNG'')"
    and resized: "resize_to_500 P (length (heap w0))
           (w0\<lparr>heap := heap w0 @ [v0], trace := trace w0 @ [Opened (length (heap w0))]\<rparr>) =
         (Inr (img, buffer), w)"
    and over: "250000 < length buffer"
    and t4: "pil_thumbnail P (heap w ! img) (400, 400) None = Inr t4"
    and b4: "pil_save P t4 ''PNG'' True None = Inr b4"
    and t3: "pil_thumbnail P (heap w ! img) (300, 300) None = Inr t3"
    and b3: "pil_save P t3 ''PNG'' True None = Inr b3"
    and t2: "pil_thumbnail P (heap w ! img) (200, 200) None = Inr t2"
    and b2: "pil_save P t2 ''PNG'' True None = Inr b2"
    and over4: "250000 < length b4"
    and over3: "250000 < length b3"
    and fits: "length b2 \<le> 250000"
  shows "compress_image P file w0 =
        (Some b2, w\<lparr>heap := heap w @ [t4, t3, t2],
                    trace := trace w @ StWarning ''Image is large, attempting further compression...'' #
                             attempt img (length (heap w)) (400, 400) @
                             attempt img (length (heap w) + 1) (300, 300) @
                             attempt img (length (heap w) + 2) (200, 200)\<rparr>)"
  unfolding compress_image_over_budget [OF opened slow resized over]
    further_compression_stages [OF over_budget_ref [OF resized] t4 b4 t3 b3 t2 b2]
  using over4 over3 fits by simp

lemma grayscale_tried_once:
  assumes opened: "pil_open P file = Inr v0"
    and slow: "\<not> (length file \<le> 250000 \<and> pil_format P v0 = Some ''PNG'')"
    and resized: "resize_to_500 P (length (heap w0))
           (w0\<lparr>heap := heap w0 @ [v0], trace := trace w0 @ [Opened (length (heap w0))]\<rparr>) =
         (Inr (img, buffer), w)"
    and over: "250000 < length buffer"
    and t4: "pil_thumbnail P (heap w ! img) (400, 400) None = Inr t4"
    and b4: "pil_save P t4 ''PNG'' True None = Inr b4"
    and t3: "pil_thumbnail P (heap w ! img) (300, 300) None = Inr t3"
    and b3: "pil_save P t3 ''PNG'' True None = Inr b3"
    and t2: "pil_thumbnail P (heap w ! img) (200, 200) None = Inr t2"
    and b2: "pil_save P t2 ''PNG'' True None = Inr b2"
    and over4: "250000 < length b4"
    and over3: "250000 < length b3"
    and over2: "250000 < length b2"
    and gray: "pil_convert P (heap w ! img) ''L'' = Inr g"
    and bg: "pil_save P g ''PNG'' True (Some 70) = Inr bg"
  shows "compress_image P file w0 =
        (Some bg, w\<lparr>heap := heap w @ [t4, t3, t2, g],
                    trace := trace w @ StWarning ''Image is large, attempting further compression...'' #
                             attempt img (length (heap w)) (400, 400) @
                             attempt img (length (heap w) + 1) (300, 300) @
                             attempt img (length (heap w) + 2) (200, 200) @
                             [Converted img ''L'' (length (heap w) + 3),
                              Saved (length (heap w) + 3)]\<rparr>)"
  unfolding compress_image_over_budget [OF opened slow resized over]
    further_compression_stages [OF over_budget_ref [OF resized] t4 b4 t3 b3 t2 b2]
  using over4 over3 over2
    gray_stage [OF over_budget_ref [OF resized] gray bg, where ts = "[t4, t3, t2]"]
  by (simp add: attempt_def)

lemma degradation_examples:
  "fst (compress_image (example_pil ''JPEG'' (\<lambda>v. 600 * fst v)) ''JFIF'' empty_world) =
      Some (replicate 240000 (CHR ''x''))
   \<and> fst (compress_image (example_pil ''JPEG'' (\<lambda>v. 700 * fst v)) ''JFIF'' empty_world) =
      Some (replicate 210000 (CHR ''x''))
   \<and> fst (compress_image (example_pil ''JPEG'' (\<lambda>v. 1000 * fst v)) ''JFIF'' empty_world) =
      Some (replicate 200000 (CHR ''x''))
   \<and> compress_image (example_pil ''JPEG'' gray_fits_enc) ''JFIF'' empty_world =
      (Some (replicate 500 (CHR ''x'')),
       \<lparr>heap = [(500, ''RGB''), (400, ''RGB''), (300, ''RGB''), (200, ''RGB''), (500, ''L'')],
        trace = [Opened 0, Thumbnailed 0 (500, 500), Saved 0,
          StWarning ''Image is large, attempting further compression...'',
          Copied 0 1, Thumbnailed 1 (400, 400), Saved 1,
          Copied 0 2, Thumbnailed 2 (300, 300), Saved 2,
          Copied 0 3, Thumbnailed 3 (200, 200), Saved 3,
          Converted 0 ''L'' 4, Saved 4]\<rparr>)"
proof -
  have slow: "\<not> (length ''JFIF'' \<le> 250000 \<and> pil_format (example_pil ''JPEG'' enc) (4000, ''RGB'') = Some ''PNG'')"
    for enc by (simp add: example_ops)
  note o = example_ops(1) [of "''JPEG''" _ "''JFIF''"]
  note t = example_ops(3) [of "''JPEG''"]
  note s = example_ops(4) [of "''JPEG''"]
  have i1: "fst (compress_image (example_pil ''JPEG'' (\<lambda>v. 600 * fst v)) ''JFIF'' empty_world) =
      Some (replicate 240000 (CHR ''x''))"
    using first_cap_fits [OF o slow example_resize _ t [of _ 400] s,
        of "\<lambda>v. 600 * fst v"]
    by simp
  have i2: "fst (compress_image (example_pil ''JPEG'' (\<lambda>v. 700 * fst v)) ''JFIF'' empty_world) =
      Some (replicate 210000 (CHR ''x''))"
    using second_cap_fits [OF o slow example_resize _ t [of _ 400] s t [of _ 300] s,
        of "\<lambda>v. 700 * fst v"]
    by simp
  have i3: "fst (compress_image (example_pil ''JPEG'' (\<lambda>v. 1000 * fst v)) ''JFIF'' empty_world) =
      Some (replicate 200000 (CHR ''x''))"
    using third_cap_fits [OF o slow example_resize _ t [of _ 400] s t [of _ 300] s t [of _ 200] s,
        of "\<lambda>v. 1000 * fst v"]
    by simp
  have i4: "compress_image (example_pil ''JPEG'' gray_fits_enc) ''JFIF'' empty_world =
      (Some (replicate 500 (CHR ''x'')),
       \<lparr>heap = [(500, ''RGB''), (400, ''RGB''), (300, ''RGB''), (200, ''RGB''), (500, ''L'')],
        trace = [Opened 0, Thumbnailed 0 (500, 500), Saved 0,
          StWarning ''Image is large, attempting further compression...'',
          Copied 0 1, Thumbnailed 1 (400, 400), Saved 1,
          Copied 0 2, Thumbnailed 2 (300, 300), Saved 2,
          Copied 0 3, Thumbnailed 3 (200, 200), Saved 3,
          Converted 0 ''L'' 4, Saved 4]\<rparr>)"
    using grayscale_tried_once [OF o slow example_resize _ t [of _ 400] s t [of _ 300] s
        t [of _ 200] s _ _ _ example_ops(5) [of "''JPEG''"] s, of gray_fits_enc]
    by (simp add: gray_fits_enc_def resized_world_def attempt_def)
  from i1 i2 i3 i4 show ?thesis by (intro conjI)
qed

text \<open>
  C2. The order of the stages holds on the code, the last clause of the claim does not.
  On an image whose every encoding is over the budget, \<^verbatim>\<open>compress_image\<close> thumbnails
  copies at 400x400, 300x300 and 200x200 in that order, converts to grayscale and encodes
  once more, and then returns a buffer: the Normalizer does not fail.
\<close>

theorem grayscale_attempt_ends_without_failure:
  "trace (snd (compress_image (example_pil ''JPEG'' over_budget_enc) ''JFIF'' empty_world)) =
     [Opened 0, Thumbnailed 0 (500, 500), Saved 0,
      StWarning ''Image is large, attempting further compression...'',
      Copied 0 1, Thumbnailed 1 (400, 400), Saved 1,
      Copied 0 2, Thumbnailed 2 (300, 300), Saved 2,
      Copied 0 3, Thumbnailed 3 (200, 200), Saved 3,
      Converted 0 ''L'' 4, Saved 4]
   \<and> fst (compress_image (example_pil ''JPEG'' over_budget_enc) ''JFIF'' empty_world) \<noteq> None"
  by (simp add: run_defs over_budget_enc_def)

text \<open>
  C10. Let \<open>img\<close> be the image that lines 68-80 leave, capped at 500 by
  \<^verbatim>\<open>thumbnail\<close>. Whatever the aggressive stage returns, the object \<open>img\<close> has afterwards
  the contents it had before: every cap is tried on a copy. When all three caps fail,
  the grayscale conversion of \<^verbatim>\<open>compress_image\<close> is therefore computed from those contents,
  the image capped at 500, not from a 200x200 thumbnail.
\<close>

theorem aggressive_stage_keeps_image:
  assumes ref0: "img0 < length (heap w0)"
    and resized: "resize_to_500 P img0 w0 = (Inr (img, buffer), w)"
  shows "(\<exists>v. pil_thumbnail P v (500, 500) (Some LANCZOS) = Inr (heap w ! img))
     \<and> heap (snd (aggressive_compress P img
                (emit (StWarning ''Image is large, attempting further compression...'') w))) ! img
         = heap w ! img
     \<and> (fst (aggressive_compress P img
                (emit (StWarning ''Image is large, attempting further compression...'') w)) = Inr None
         \<longrightarrow> further_compression P img w =
               andthen (\<lambda>w1. case pil_convert P (heap w ! img) ''L'' of
                                Inl e \<Rightarrow> (Inl e, w1)
                              | Inr g \<Rightarrow> (Inr (length (heap w1)),
                                          emit (Converted img ''L'' (length (heap w1)))
                                            (w1\<lparr>heap := heap w1 @ [g]\<rparr>)))
                 (\<lambda>img_gray. img_save P img_gray ''PNG'' True (Some 70))
                 (snd (aggressive_compress P img
                    (emit (StWarning ''Image is large, attempting further compression...'') w))))"
proof -
  let ?W = "emit (StWarning ''Image is large, attempting further compression...'') w"
  from resize_to_500_result [OF resized ref0]
  have ref: "img < length (heap w)"
    and capped: "\<exists>v. pil_thumbnail P v (500, 500) (Some LANCZOS) = Inr (heap w ! img)"
    by blast+
  have refW: "img < length (heap ?W)" and sameW: "heap ?W ! img = heap w ! img"
    using ref by (simp_all add: emit_def)
  obtain r w1 where agg: "aggressive_compress P img ?W = (r, w1)" by fastforce
  then have "aggressive_loop P img [(400, 400), (300, 300), (200, 200)] ?W = (r, w1)"
    by (simp only: aggressive_compress_def)
  from aggressive_loop_frame [OF this refW] sameW
  have frame: "heap w1 ! img = heap w ! img" by simp
  have gray: "further_compression P img w =
               andthen (\<lambda>w1. case pil_convert P (heap w ! img) ''L'' of
                                Inl e \<Rightarrow> (Inl e, w1)
                              | Inr g \<Rightarrow> (Inr (length (heap w1)),
                                          emit (Converted img ''L'' (length (heap w1)))
                                            (w1\<lparr>heap := heap w1 @ [g]\<rparr>)))
                 (\<lambda>img_gray. img_save P img_gray ''PNG'' True (Some 70)) w1"
    if "r = Inr None"
    using that agg frame
    by (simp add: further_compression_def andthen_def ret_def img_convert_def)
  from capped frame gray agg show ?thesis by simp
qed

theorem aggressive_stage_keeps_image_witness:
  "heap (snd (aggressive_compress (example_pil ''JPEG'' over_budget_enc) 0
       (emit (StWarning ''Image is large, attempting further compression...'') resized_world))) ! 0
     = (500, ''RGB'')
   \<and> heap (snd (further_compression (example_pil ''JPEG'' over_budget_enc) 0 resized_world)) =
       [(500, ''RGB''), (400, ''RGB''), (300, ''RGB''), (200, ''RGB''), (500, ''L'')]"
proof -
  let ?P = "example_pil ''JPEG'' over_budget_enc"
  let ?e = "empty_world :: (nat \<times> string) world"
  let ?w0 = "?e\<lparr>heap := heap ?e @ [(4000, ''RGB'')], trace := trace ?e @ [Opened (length (heap ?e))]\<rparr>"
  let ?W = "emit (StWarning ''Image is large, attempting further compression...'') resized_world"
  have h1: "length (heap ?e) < length (heap ?w0)" by simp
  note T = aggressive_stage_keeps_image [OF h1 example_resize, of "''JPEG''" over_budget_enc]
  have agg: "aggressive_compress ?P 0 ?W =
      (Inr None, \<lparr>heap = [(500, ''RGB''), (400, ''RGB''), (300, ''RGB''), (200, ''RGB'')],
                 trace = [Opened 0, Thumbnailed 0 (500, 500), Saved 0,
                   StWarning ''Image is large, attempting further compression...'',
                   Copied 0 1, Thumbnailed 1 (400, 400), Saved 1,
                   Copied 0 2, Thumbnailed 2 (300, 300), Saved 2,
                   Copied 0 3, Thumbnailed 3 (200, 200), Saved 3]\<rparr>)"
    by (simp add: run_defs resized_world_def over_budget_enc_def)
  from T have a: "heap (snd (aggressive_compress ?P 0 ?W)) ! 0 = heap resized_world ! 0"
    by (elim conjE)
  from T agg have b: "further_compression ?P 0 resized_world =
               andthen (\<lambda>w1. case pil_convert ?P (heap resized_world ! 0) ''L'' of
                                Inl e \<Rightarrow> (Inl e, w1)
                              | Inr g \<Rightarrow> (Inr (length (heap w1)),
                                          emit (Converted 0 ''L'' (length (heap w1)))
                                            (w1\<lparr>heap := heap w1 @ [g]\<rparr>)))
                 (\<lambda>img_gray. img_save ?P img_gray ''PNG'' True (Some 70))
                 (snd (aggressive_compress ?P 0 ?W))"
    by simp
  have a': "heap (snd (aggressive_compress ?P 0 ?W)) ! 0 = (500, ''RGB'')"
    using a by (simp add: resized_world_def)
  have b': "heap (snd (further_compression ?P 0 resized_world)) =
       [(500, ''RGB''), (400, ''RGB''), (300, ''RGB''), (200, ''RGB''), (500, ''L'')]"
    unfolding b agg
    by (simp add: andthen_def img_save_def emit_def example_ops example_pil_def resized_world_def)
  from a' b' show ?thesis by (rule conjI)
qed

text \<open>
  C1 fails on the code. For an image whose encodings all exceed 250,000 bytes, the
  grayscale one included, \<^verbatim>\<open>compress_image\<close> returns the grayscale buffer of 260,500
  bytes instead of \<^verbatim>\<open>None\<close>: after the last re-encoding the size is not checked again.
\<close>

theorem grayscale_over_budget_is_returned:
  "fst (compress_image (example_pil ''JPEG'' over_budget_enc) ''JFIF'' empty_world) =
     Some (replicate 260500 (CHR ''x''))
   \<and> 250000 < length (replicate 260500 (CHR ''x''))"
  by (simp add: run_defs over_budget_enc_def)

end
